theory Spec2Isabelle
  imports Main "HOL-Library.Sublist"
begin

section \<open>Python strings\<close>

text \<open>
  The string operations that \<open>download_dataset_v2\<close> uses, on \<open>string\<close> (a list of
  characters): \<open>item in file\<close>, \<open>file.endswith(suffix)\<close>, \<open>folder.split("-")\<close>
  and \<open>os.path.join\<close> (the POSIX one).
\<close>

fun str_in :: "string \<Rightarrow> string \<Rightarrow> bool" where
  "str_in item [] = (item = [])"
| "str_in item (c # cs) = (prefix item (c # cs) \<or> str_in item cs)"

definition endswith :: "string \<Rightarrow> string \<Rightarrow> bool" where
  "endswith file suf =
     (length suf \<le> length file \<and> drop (length file - length suf) file = suf)"

fun py_split :: "char \<Rightarrow> string \<Rightarrow> string list" where
  "py_split sep [] = [[]]"
| "py_split sep (c # cs) =
     (if c = sep then [] # py_split sep cs
      else (case py_split sep cs of w # ws \<Rightarrow> (c # w) # ws | [] \<Rightarrow> [[c]]))"

text \<open>\<open>posixpath.join(a, b)\<close>: an absolute \<open>b\<close> replaces \<open>a\<close>; a separator is
  put in unless \<open>a\<close> is empty or ends with one.\<close>

definition path_join :: "string \<Rightarrow> string \<Rightarrow> string" where
  "path_join a b =
     (if (case b of c # _ \<Rightarrow> c = CHR ''/'' | [] \<Rightarrow> False) then b
      else if a = [] \<or> last a = CHR ''/'' then a @ b
      else a @ ''/'' @ b)"

section \<open>Errors\<close>

text \<open>
  The exceptions a pass can end with. The source raises \<open>ValueError\<close> and
  \<open>TypeError\<close> with different messages; the constructors keep the cases apart
  under the names of the specification's taxonomy.
\<close>

datatype error =
    TypeError
  | InvalidState
  | DatasetNotFound
  | AmbiguousSelection
  | NoFilesMatched
  | TransferError
  | LocalIOError
  | DocsNotFound

section \<open>Prefix resolution\<close>

text \<open>
  \<^verbatim>\<open>
  dsid_names = {}
  for prefix in ...search('CommonPrefixes'):
      folder = prefix.get('Prefix')
      dsid_names[folder.split("-")[0]] = folder
  dsid_name = dsid_names.get(dsid)
  if dsid_name is None: raise ValueError(...)
  \<close>
\<close>

definition leading_segment :: "string \<Rightarrow> string" where
  "leading_segment folder = hd (py_split CHR ''-'' folder)"

definition dsid_names :: "string list \<Rightarrow> (string \<rightharpoonup> string)" where
  "dsid_names folders = fold (\<lambda>folder m. m(leading_segment folder \<mapsto> folder)) folders Map.empty"

definition resolve_prefix :: "string list \<Rightarrow> string \<Rightarrow> error + string" where
  "resolve_prefix folders dsid =
     (case dsid_names folders dsid of
        None \<Rightarrow> Inl DatasetNotFound
      | Some dsid_name \<Rightarrow> Inr dsid_name)"

section \<open>The criteria filter\<close>

text \<open>
  A criteria argument is \<open>None\<close>, a string, a list of strings, or a value of another
  type (for which the source raises \<open>TypeError\<close>).
\<close>

datatype criterion = Absent | Single string | Many "string list" | Other

text \<open>A Python \<open>set\<close> of keys is a list without duplicates.\<close>

definition py_set :: "string list \<Rightarrow> string list" where
  "py_set xs = remdups xs"

definition isdisjoint :: "string list \<Rightarrow> string list \<Rightarrow> bool" where
  "isdisjoint s xs = (\<forall>x \<in> set xs. x \<notin> set s)"

definition set_update :: "string list \<Rightarrow> string list \<Rightarrow> string list" where
  "set_update s xs = s @ remdups [x \<leftarrow> xs. x \<notin> set s]"

definition intersection :: "string list \<Rightarrow> string list \<Rightarrow> string list" where
  "intersection s t = [x \<leftarrow> s. x \<in> set t]"

text \<open>
  The loop over \<open>contains_any\<close>. The source sets \<open>firstLoop = True\<close> before the loop
  and never assigns it again, so the flag is passed on unchanged:
  \<^verbatim>\<open>
  for item in contains_any:
      files_containing_this_item = [file for file in files_found if item in file]
      if firstLoop:
          files_containing_any = set(files_containing_this_item)
      else:
          if files_containing_any.isdisjoint(files_containing_this_item):
              files_containing_any.update(files_containing_this_item)
          else:
              raise ValueError(...)
  \<close>
\<close>

fun any_loop :: "string list \<Rightarrow> bool \<Rightarrow> string list \<Rightarrow> string list \<Rightarrow> error + string list" where
  "any_loop files_found firstLoop files_containing_any [] = Inr files_containing_any"
| "any_loop files_found firstLoop files_containing_any (item # items) =
     (let files_containing_this_item = [file \<leftarrow> files_found. str_in item file] in
      if firstLoop then
        any_loop files_found firstLoop (py_set files_containing_this_item) items
      else if isdisjoint files_containing_any files_containing_this_item then
        any_loop files_found firstLoop
          (set_update files_containing_any files_containing_this_item) items
      else Inl AmbiguousSelection)"

definition select_any :: "string list \<Rightarrow> criterion \<Rightarrow> error + string list" where
  "select_any files_found contains_any =
     (case contains_any of
        Absent \<Rightarrow> Inr (py_set files_found)
      | Single s \<Rightarrow> any_loop files_found True [] [s]
      | Many items \<Rightarrow> any_loop files_found True [] items
      | Other \<Rightarrow> Inl TypeError)"

text \<open>
  The loops over \<open>contains_all\<close> and over \<open>suffixes\<close> do reset their flag:
  \<^verbatim>\<open>
  for item in contains_all:
      files_containing_this_item = set([file for file in files_found if item in file])
      if firstLoop:
          files_containing_all = files_containing_this_item
          firstLoop = False
      else:
          files_containing_all = files_containing_all.intersection(files_containing_this_item)
  \<close>
\<close>

fun all_loop :: "(string \<Rightarrow> string \<Rightarrow> bool) \<Rightarrow> string list \<Rightarrow> bool \<Rightarrow> string list \<Rightarrow>
    string list \<Rightarrow> string list" where
  "all_loop matches files_found firstLoop acc [] = acc"
| "all_loop matches files_found firstLoop acc (item # items) =
     (let this = py_set [file \<leftarrow> files_found. matches item file] in
      if firstLoop then all_loop matches files_found False this items
      else all_loop matches files_found firstLoop (intersection acc this) items)"

definition select_all :: "string list \<Rightarrow> criterion \<Rightarrow> error + string list" where
  "select_all files_found contains_all =
     (case contains_all of
        Absent \<Rightarrow> Inr (py_set files_found)
      | Single s \<Rightarrow> Inr (all_loop str_in files_found True [] [s])
      | Many items \<Rightarrow> Inr (all_loop str_in files_found True [] items)
      | Other \<Rightarrow> Inl TypeError)"

definition select_suffixes :: "string list \<Rightarrow> criterion \<Rightarrow> error + string list" where
  "select_suffixes files_found suffixes' =
     (case suffixes' of
        Absent \<Rightarrow> Inr (py_set files_found)
      | Single s \<Rightarrow> Inr (all_loop (\<lambda>sfx file. endswith file sfx) files_found True [] [s])
      | Many items \<Rightarrow>
          Inr (all_loop (\<lambda>sfx file. endswith file sfx) files_found True [] items)
      | Other \<Rightarrow> Inl TypeError)"

text \<open>
  The three subsets are computed in the source's order (any, all, suffixes), so a
  \<open>TypeError\<close> of an earlier group wins; then
  \<open>files_containing_any.intersection(files_containing_all, files_with_suffixes)\<close>
  and the check that it is not empty.
\<close>

definition select_files :: "string list \<Rightarrow> criterion \<Rightarrow> criterion \<Rightarrow> criterion \<Rightarrow>
    error + string list" where
  "select_files files_found contains_all contains_any suffixes' =
     (case select_any files_found contains_any of
        Inl e \<Rightarrow> Inl e
      | Inr files_containing_any \<Rightarrow>
     (case select_all files_found contains_all of
        Inl e \<Rightarrow> Inl e
      | Inr files_containing_all \<Rightarrow>
     (case select_suffixes files_found suffixes' of
        Inl e \<Rightarrow> Inl e
      | Inr files_with_suffixes \<Rightarrow>
          (let files_to_download =
             intersection (intersection files_containing_any files_containing_all)
               files_with_suffixes
           in if files_to_download = [] then Inl NoFilesMatched
              else Inr files_to_download))))"

section \<open>The local file system\<close>

text \<open>
  The local tree is a finite map from paths to entries, kept as an association list. A
  path is the list of its components from the root of the tree, which is also the
  working directory, so that relative and absolute spellings of a path meet. An entry
  is a file or a directory with its modification and creation times, in the order
  \<open>os.path.getmtime\<close>, \<open>os.path.getctime\<close>; times are integers (the clock's
  ticks), since the source only compares them. The root directory is the entry at
  \<open>[]\<close>. There are no symbolic links, and a path string is resolved lexically, as
  \<open>os.path.normpath\<close> does: empty components and \<open>.\<close> are dropped, \<open>..\<close> steps
  back.
\<close>

datatype entry = is_file: File (mtime: int) (ctime: int) | is_dir: Dir (mtime: int) (ctime: int)

type_synonym filesystem = "(string list \<times> entry) list"

definition norm_step :: "string \<Rightarrow> string list \<Rightarrow> string list" where
  "norm_step c acc = (if c = [] \<or> c = ''.'' then acc
                      else if c = ''..'' then butlast acc
                      else acc @ [c])"

definition components :: "string \<Rightarrow> string list" where
  "components path = fold norm_step (py_split CHR ''/'' path) []"

definition remove :: "string list \<Rightarrow> filesystem \<Rightarrow> filesystem" where
  "remove q fs = filter (\<lambda>(p, e). p \<noteq> q) fs"

definition store :: "string list \<Rightarrow> entry \<Rightarrow> filesystem \<Rightarrow> filesystem" where
  "store q e fs = (q, e) # remove q fs"

text \<open>\<open>os.path.exists(path)\<close>; the empty string names nothing.\<close>

definition path_exists :: "filesystem \<Rightarrow> string \<Rightarrow> bool" where
  "path_exists fs path = (path \<noteq> [] \<and> map_of fs (components path) \<noteq> None)"

text \<open>\<open>os.path.getmtime(path)\<close> and \<open>os.path.getctime(path)\<close> raise on a missing path.\<close>

definition getmtime :: "filesystem \<Rightarrow> string \<Rightarrow> error + int" where
  "getmtime fs path =
     (if path = [] then Inl LocalIOError
      else (case map_of fs (components path) of
              None \<Rightarrow> Inl LocalIOError
            | Some e \<Rightarrow> Inr (mtime e)))"

definition getctime :: "filesystem \<Rightarrow> string \<Rightarrow> error + int" where
  "getctime fs path =
     (if path = [] then Inl LocalIOError
      else (case map_of fs (components path) of
              None \<Rightarrow> Inl LocalIOError
            | Some e \<Rightarrow> Inr (ctime e)))"

text \<open>
  \<open>posixpath.dirname(p)\<close>: the text up to the last separator, with trailing
  separators stripped unless nothing else is left.
\<close>

definition dirname :: "string \<Rightarrow> string" where
  "dirname p =
     (let head = rev (dropWhile (\<lambda>c. c \<noteq> CHR ''/'') (rev p)) in
      if head \<noteq> [] \<and> \<not> (\<forall>c \<in> set head. c = CHR ''/'')
      then rev (dropWhile (\<lambda>c. c = CHR ''/'') (rev head))
      else head)"

text \<open>
  The times that the platform gives to an entry made during the pass are a parameter
  \<open>stamp\<close> of the operations that create entries: no claim depends on them.

  \<open>os.makedirs(name, exist_ok)\<close> creates the missing directories on the way to
  \<open>name\<close>. It fails on the empty string, on a file in the way, and on an existing
  target unless \<open>exist_ok\<close> is set and the target is a directory.
\<close>

fun mkdirs_from :: "(string list \<Rightarrow> int \<times> int) \<Rightarrow> filesystem \<Rightarrow> string list \<Rightarrow>
    string list \<Rightarrow> error + filesystem" where
  "mkdirs_from stamp fs pre [] = Inr fs"
| "mkdirs_from stamp fs pre (c # cs) =
     (case map_of fs (pre @ [c]) of
        None \<Rightarrow>
          mkdirs_from stamp
            (store (pre @ [c]) (case stamp (pre @ [c]) of (m, t) \<Rightarrow> Dir m t) fs)
            (pre @ [c]) cs
      | Some (Dir _ _) \<Rightarrow> mkdirs_from stamp fs (pre @ [c]) cs
      | Some (File _ _) \<Rightarrow> Inl LocalIOError)"

definition makedirs :: "(string list \<Rightarrow> int \<times> int) \<Rightarrow> string \<Rightarrow> bool \<Rightarrow> filesystem \<Rightarrow>
    error + filesystem" where
  "makedirs stamp name exist_ok fs =
     (if name = [] then Inl LocalIOError
      else (case map_of fs (components name) of
              Some e \<Rightarrow> if exist_ok \<and> is_dir e then Inr fs else Inl LocalIOError
            | None \<Rightarrow> mkdirs_from stamp fs [] (components name)))"

text \<open>
  Writing a file (the target of \<open>client.download_file\<close>, or \<open>open(path, 'wb')\<close>):
  the path must name a file (its last component is a name), its parent must be a
  directory, and the target must not be a directory.
\<close>

definition write_file :: "(string list \<Rightarrow> int \<times> int) \<Rightarrow> string \<Rightarrow> filesystem \<Rightarrow>
    error + filesystem" where
  "write_file stamp path fs =
     (let q = components path in
      if last (py_split CHR ''/'' path) \<in> {[], ''.'', ''..''} \<or> q = [] then Inl LocalIOError
      else (case map_of fs (butlast q) of
              Some (Dir _ _) \<Rightarrow>
                (case map_of fs q of
                   Some (Dir _ _) \<Rightarrow> Inl LocalIOError
                 | _ \<Rightarrow> Inr (store q (case stamp q of (m, t) \<Rightarrow> File m t) fs))
            | _ \<Rightarrow> Inl LocalIOError))"

text \<open>
  The file paths that the two loops
  \<^verbatim>\<open>
  for root, dirs, files in os.walk(top):
      for file in files:
          file_path = os.path.join(root, file)
  \<close>
  go through. \<open>os.walk\<close> starts with \<open>root = top\<close> as it is written and descends with
  \<open>os.path.join(root, dir)\<close>, so the path of the file at \<open>components top @ rest\<close> is
  \<open>top\<close> joined with the components of \<open>rest\<close> one after the other. In a tree (every
  entry lies in a directory that exists) these are the files below \<open>top\<close>, and there
  are none when \<open>top\<close> is missing or is a file. \<open>os.walk('')\<close> yields nothing. The
  files come in the order of the association list (the directory order of
  \<open>os.walk\<close> is the platform's).
\<close>

definition walk_files :: "string \<Rightarrow> filesystem \<Rightarrow> string list" where
  "walk_files top' fs =
     (if top' = [] then []
      else map (\<lambda>(p, e). foldl path_join top' (drop (length (components top')) p))
             (filter (\<lambda>(p, e). is_file e \<and> prefix (components top') p \<and> p \<noteq> components top')
                fs))"

section \<open>The object store, the platform and the state of a pass\<close>

text \<open>
  What the pass reads from outside: the object store behind the \<open>boto3\<close> client
  (the folders of a bucket, the pages of keys under a prefix, the \<open>LastModified\<close> time
  of a key when \<open>head_object\<close> succeeds, whether a download round trip succeeds), the
  table \<open>data_state_buckets\<close> of the packaged \<open>settings.yaml\<close>, whether
  \<open>platform.system()\<close> is \<open>'Windows'\<close>, the times given to new entries, and the
  outcome of \<open>fetch_data_documentation(dsid=dsid, default=True, binary=True)\<close>, which
  is an HTTP exchange: \<open>None\<close> when both documents arrive, the error otherwise.
\<close>

record s3_client =
  common_prefixes :: "string \<Rightarrow> string list"
  list_objects :: "string \<Rightarrow> string \<Rightarrow> string list list"
  head_object :: "string \<Rightarrow> string \<Rightarrow> int option"
  can_download :: "string \<Rightarrow> string \<Rightarrow> bool"

record environment =
  data_state_buckets :: "string \<rightharpoonup> string"
  client :: s3_client
  is_windows :: bool
  new_times :: "string list \<Rightarrow> int \<times> int"
  fetch_data_documentation :: "string \<Rightarrow> error option"

text \<open>The warnings and the printed lines, by kind and with the value they show.\<close>

datatype warning = is_ctime_warning: CtimeUnreliable string | DeletingExtraneous string

datatype message =
    LocallyModified string
  | UpdatedOnS3 string
  | UpToDate string
  | Downloaded string
  | ExceptionFnames "string list"

text \<open>
  The state that a pass changes: the local tree, the calls of
  \<open>client.download_file\<close> (bucket, key, file name) in order, the calls of
  \<open>warnings.warn\<close>, and the printed lines.
\<close>

record world =
  fs :: filesystem
  transfers :: "(string \<times> string \<times> string) list"
  warnings :: "warning list"
  printed :: "message list"

record arguments =
  dsid :: string
  data_state :: string
  contains_all :: criterion
  contains_any :: criterion
  suffixes_arg :: criterion
  datadir :: string
  update :: bool
  clean :: bool
  fetch_docs :: bool
  check_for_expected_files :: bool
  expected_file_list :: "string option list"
  verbose :: bool

definition warn :: "warning \<Rightarrow> world \<Rightarrow> world" where
  "warn x w = w\<lparr>warnings := warnings w @ [x]\<rparr>"

definition print :: "message \<Rightarrow> world \<Rightarrow> world" where
  "print x w = w\<lparr>printed := printed w @ [x]\<rparr>"

text \<open>
  \<open>client.download_file(Bucket, Key, Filename)\<close>: the call is recorded, then the round
  trip or the local write may fail.
\<close>

definition download_file :: "environment \<Rightarrow> string \<Rightarrow> string \<Rightarrow> string \<Rightarrow> world \<Rightarrow>
    error option \<times> world" where
  "download_file env Bucket Key Filename w =
     (let w1 = w\<lparr>transfers := transfers w @ [(Bucket, Key, Filename)]\<rparr> in
      if \<not> can_download (client env) Bucket Key then (Some TransferError, w1)
      else (case write_file (new_times env) Filename (fs w1) of
              Inl e \<Rightarrow> (Some e, w1)
            | Inr fs' \<Rightarrow> (None, w1\<lparr>fs := fs'\<rparr>)))"

section \<open>One reconciliation pass\<close>

text \<open>
  The body of the loop \<open>for file_path in files_to_download\<close>:
  \<^verbatim>\<open>
  destination_path = os.path.join(datadir, file_path)
  if platform.system() != 'Windows' and update:
      warnings.warn(...)
  if update and os.path.exists(destination_path):
      local_last_modified_time = os.path.getmtime(destination_path)
      local_creation_time = os.path.getctime(destination_path)
      response = client.head_object(Bucket=Bucket, Key=file_path)
      s3_last_modified_time = response['LastModified'].timestamp()
      if local_last_modified_time > local_creation_time:
          client.download_file(...);  if verbose: print(...)
      elif s3_last_modified_time > local_creation_time:
          client.download_file(...);  if verbose: print(...)
      elif verbose: print(...)
  else:
      directory = os.path.dirname(destination_path)
      if not os.path.exists(directory): os.makedirs(directory)
      client.download_file(...);  if verbose: print(...)
  \<close>
  A failing call ends the pass where it stands.
\<close>

definition warn_unreliable_ctime :: "environment \<Rightarrow> string \<Rightarrow> bool \<Rightarrow> world \<Rightarrow> world" where
  "warn_unreliable_ctime env datadir' update' w =
     (if \<not> is_windows env \<and> update' then warn (CtimeUnreliable datadir') w else w)"

definition then_print :: "bool \<Rightarrow> message \<Rightarrow> error option \<times> world \<Rightarrow> error option \<times> world" where
  "then_print verbose' x r =
     (case r of
        (None, w) \<Rightarrow> (None, if verbose' then print x w else w)
      | (Some e, w) \<Rightarrow> (Some e, w))"

definition sync_file :: "environment \<Rightarrow> string \<Rightarrow> string \<Rightarrow> bool \<Rightarrow> bool \<Rightarrow> string \<Rightarrow> world \<Rightarrow>
    error option \<times> world" where
  "sync_file env Bucket datadir' update' verbose' file_path w =
     (let destination_path = path_join datadir' file_path;
          w1 = warn_unreliable_ctime env datadir' update' w
      in
      if update' \<and> path_exists (fs w1) destination_path then
        (case getmtime (fs w1) destination_path of
           Inl e \<Rightarrow> (Some e, w1)
         | Inr local_last_modified_time \<Rightarrow>
        (case getctime (fs w1) destination_path of
           Inl e \<Rightarrow> (Some e, w1)
         | Inr local_creation_time \<Rightarrow>
        (case head_object (client env) Bucket file_path of
           None \<Rightarrow> (Some TransferError, w1)
         | Some s3_last_modified_time \<Rightarrow>
             if local_last_modified_time > local_creation_time then
               then_print verbose' (LocallyModified destination_path)
                 (download_file env Bucket file_path destination_path w1)
             else if s3_last_modified_time > local_creation_time then
               then_print verbose' (UpdatedOnS3 file_path)
                 (download_file env Bucket file_path destination_path w1)
             else (None, if verbose' then print (UpToDate file_path) w1 else w1))))
      else
        (let directory = dirname destination_path in
         case (if \<not> path_exists (fs w1) directory
               then makedirs (new_times env) directory False (fs w1)
               else Inr (fs w1)) of
           Inl e \<Rightarrow> (Some e, w1)
         | Inr fs' \<Rightarrow>
             then_print verbose' (Downloaded file_path)
               (download_file env Bucket file_path destination_path (w1\<lparr>fs := fs'\<rparr>))))"

text \<open>
  The loop itself. A Python set is gone through in an order of its own; the model
  takes the order of the list that stands for the set.
\<close>

fun download_all :: "environment \<Rightarrow> string \<Rightarrow> string \<Rightarrow> bool \<Rightarrow> bool \<Rightarrow> string list \<Rightarrow> world \<Rightarrow>
    error option \<times> world" where
  "download_all env Bucket datadir' update' verbose' [] w = (None, w)"
| "download_all env Bucket datadir' update' verbose' (file_path # rest) w =
     (case sync_file env Bucket datadir' update' verbose' file_path w of
        (Some e, w') \<Rightarrow> (Some e, w')
      | (None, w') \<Rightarrow> download_all env Bucket datadir' update' verbose' rest w')"

text \<open>
  The pruning block:
  \<^verbatim>\<open>
  exception_fnames = ["datadictionary.yaml", "metadata.yaml"]
  for i in range(len(exception_fnames)):
      exception_fnames[i] = os.path.join(dsid_name, exception_fnames[i])
  print(exception_fnames)
  datadir_prefix_length = len(os.path.join(datadir)) + 1
  for root, dirs, files in os.walk(os.path.join(datadir, dsid_name)):
      for file in files:
          file_path = os.path.join(root, file)
          file_path_relative = file_path[datadir_prefix_length:]
          if file_path_relative not in files_found and file_path_relative not in exception_fnames:
              if verbose: warnings.warn(f"Deleting extraneous file: {file_path}")
              os.remove(file_path)
  \<close>
  \<open>os.path.join\<close> of one argument returns it. \<open>os.remove\<close> only takes files away, so
  the walk, which lists a directory before the body runs on its files, goes through
  the files that were there when pruning began.
\<close>

definition exception_fnames :: "string \<Rightarrow> string list" where
  "exception_fnames dsid_name =
     map (path_join dsid_name) [''datadictionary.yaml'', ''metadata.yaml'']"

definition prune_file :: "string \<Rightarrow> string \<Rightarrow> string list \<Rightarrow> bool \<Rightarrow> string \<Rightarrow> world \<Rightarrow> world" where
  "prune_file datadir' dsid_name files_found verbose' file_path w =
     (let datadir_prefix_length = length datadir' + 1;
          file_path_relative = drop datadir_prefix_length file_path
      in if file_path_relative \<notin> set files_found
            \<and> file_path_relative \<notin> set (exception_fnames dsid_name)
         then (let w1 = (if verbose' then warn (DeletingExtraneous file_path) w else w)
               in w1\<lparr>fs := remove (components file_path) (fs w1)\<rparr>)
         else w)"

definition prune :: "string \<Rightarrow> string \<Rightarrow> string list \<Rightarrow> bool \<Rightarrow> world \<Rightarrow> world" where
  "prune datadir' dsid_name files_found verbose' w =
     (let w0 = print (ExceptionFnames (exception_fnames dsid_name)) w
      in fold (prune_file datadir' dsid_name files_found verbose')
           (walk_files (path_join datadir' dsid_name) (fs w0)) w0)"

text \<open>
  The documentation block. With \<open>binary=True\<close> the fetch returns two byte strings or
  raises, so both \<open>is not None\<close> tests hold:
  \<^verbatim>\<open>
  metadata, datadict = fetch_data_documentation(dsid=dsid, default=True, binary=True)
  metadata_file_path = os.path.join(datadir, dsid_name, "metadata.yaml")
  os.makedirs(os.path.dirname(metadata_file_path), exist_ok=True)
  with open(metadata_file_path, 'wb') as file: file.write(metadata)
  (the same for "datadictionary.yaml")
  \<close>
\<close>

definition write_doc :: "environment \<Rightarrow> string \<Rightarrow> world \<Rightarrow> error option \<times> world" where
  "write_doc env doc_file_path w =
     (case makedirs (new_times env) (dirname doc_file_path) True (fs w) of
        Inl e \<Rightarrow> (Some e, w)
      | Inr fs1 \<Rightarrow>
          (case write_file (new_times env) doc_file_path fs1 of
             Inl e \<Rightarrow> (Some e, w\<lparr>fs := fs1\<rparr>)
           | Inr fs2 \<Rightarrow> (None, w\<lparr>fs := fs2\<rparr>)))"

definition write_docs :: "environment \<Rightarrow> string \<Rightarrow> string \<Rightarrow> string \<Rightarrow> world \<Rightarrow>
    error option \<times> world" where
  "write_docs env dsid' datadir' dsid_name w =
     (case fetch_data_documentation env dsid' of
        Some e \<Rightarrow> (Some e, w)
      | None \<Rightarrow>
          (case write_doc env (path_join (path_join datadir' dsid_name) ''metadata.yaml'') w of
             (Some e, w1) \<Rightarrow> (Some e, w1)
           | (None, w1) \<Rightarrow>
               write_doc env (path_join (path_join datadir' dsid_name) ''datadictionary.yaml'') w1))"

text \<open>
  Listing: \<open>files_found\<close> collects, page after page, the keys that do not end with
  \<open>/\<close>.
\<close>

definition collect_files :: "string list list \<Rightarrow> string list" where
  "collect_files pages = concat (map (filter (\<lambda>key. \<not> endswith key ''/'')) pages)"

text \<open>
  The whole of \<open>download_dataset_v2\<close>. The arguments are typed, so the two
  \<open>isinstance\<close> tests on \<open>dsid\<close> and \<open>data_state\<close> and the one on \<open>datadir\<close> pass.
  The result is the exception that ended the pass (\<open>None\<close> when it completed) and the
  state the pass left.
\<close>

definition download_dataset_v2 :: "environment \<Rightarrow> arguments \<Rightarrow> world \<Rightarrow> error option \<times> world" where
  "download_dataset_v2 env a w =
     (case data_state_buckets env (data_state a) of
        None \<Rightarrow> (Some InvalidState, w)
      | Some Bucket \<Rightarrow>
     (case resolve_prefix (common_prefixes (client env) Bucket) (dsid a) of
        Inl e \<Rightarrow> (Some e, w)
      | Inr dsid_name \<Rightarrow>
     (let files_found = collect_files (list_objects (client env) Bucket dsid_name) in
      case select_files files_found (contains_all a) (contains_any a) (suffixes_arg a) of
        Inl e \<Rightarrow> (Some e, w)
      | Inr files_to_download \<Rightarrow>
     (case download_all env Bucket (datadir a) (update a) (verbose a) files_to_download w of
        (Some e, w1) \<Rightarrow> (Some e, w1)
      | (None, w1) \<Rightarrow>
          (let w2 = (if clean a then prune (datadir a) dsid_name files_found (verbose a) w1
                     else w1)
           in if fetch_docs a then write_docs env (dsid a) (datadir a) dsid_name w2
              else (None, w2))))))"

section \<open>The decision table of the specification\<close>



section \<open>Well-formed local trees\<close>

text \<open>
  The name of a directory entry is not empty, is neither \<open>.\<close> nor \<open>..\<close>, and has
  no separator in it; in a well-formed tree every path is made of such names.
\<close>

definition name_ok :: "string \<Rightarrow> bool" where
  "name_ok c = (c \<noteq> [] \<and> c \<noteq> ''.'' \<and> c \<noteq> ''..'' \<and> CHR ''/'' \<notin> set c)"

definition wellformed :: "filesystem \<Rightarrow> bool" where
  "wellformed tr = (\<forall>(p, e) \<in> set tr. \<forall>c \<in> set p. name_ok c)"

text \<open>
  The test of the pruning loop on a walked file path: neither in \<open>files_found\<close> nor
  in \<open>exception_fnames\<close>.
\<close>

definition extraneous :: "string \<Rightarrow> string \<Rightarrow> string list \<Rightarrow> string \<Rightarrow> bool" where
  "extraneous datadir' dsid_name files_found file_path =
     (drop (length datadir' + 1) file_path \<notin> set files_found
      \<and> drop (length datadir' + 1) file_path \<notin> set (exception_fnames dsid_name))"

section \<open>A small store and a small local tree\<close>

text \<open>
  One bucket \<open>b\<close> for the state \<open>standardised\<close>, with the folder \<open>D-x/\<close> and two
  objects under it; a local tree under \<open>d\<close> that holds both objects, a
  \<open>metadata.yaml\<close> and a file \<open>junk\<close> that the store does not have.
\<close>

definition ex_env :: environment where
  "ex_env = \<lparr>data_state_buckets = [''standardised'' \<mapsto> ''b''],
     client = \<lparr>common_prefixes = (\<lambda>_. [''D-x/'']),
                list_objects = (\<lambda>_ _. [[''D-x/'', ''D-x/a.csv'', ''D-x/b.txt'']]),
                head_object = (\<lambda>_ _. Some 5), can_download = (\<lambda>_ _. True)\<rparr>,
     is_windows = False, new_times = (\<lambda>_. (9, 9)),
     fetch_data_documentation = (\<lambda>_. None)\<rparr>"

definition ex_args :: arguments where
  "ex_args = \<lparr>dsid = ''D'', data_state = ''standardised'', contains_all = Absent,
     contains_any = Absent, suffixes_arg = Single ''csv'', datadir = ''d'', update = True,
     clean = True, fetch_docs = False, check_for_expected_files = False,
     expected_file_list = [None], verbose = False\<rparr>"

definition ex_world :: world where
  "ex_world = \<lparr>fs = [([], Dir 0 0), ([''d''], Dir 1 1), ([''d'', ''D-x''], Dir 1 1),
       ([''d'', ''D-x'', ''a.csv''], File 7 7), ([''d'', ''D-x'', ''b.txt''], File 7 7),
       ([''d'', ''D-x'', ''metadata.yaml''], File 7 7), ([''d'', ''D-x'', ''junk''], File 7 7)],
     transfers = [], warnings = [], printed = []\<rparr>"


section \<open>Facts about the string operations\<close>

lemma str_in_iff: "str_in item key \<longleftrightarrow> (\<exists>p s. key = p @ item @ s)"
proof (induction key)
  case Nil
  then show ?case by auto
next
  case (Cons c cs)
  show ?case
  proof
    assume "str_in item (c # cs)"
    then consider "prefix item (c # cs)" | "str_in item cs" by auto
    then show "\<exists>p s. c # cs = p @ item @ s"
    proof cases
      case 1
      then obtain s where "c # cs = item @ s" by (auto simp: prefix_def)
      then have "c # cs = [] @ item @ s" by simp
      then show ?thesis by blast
    next
      case 2
      with Cons.IH obtain p s where "cs = p @ item @ s" by blast
      then have "c # cs = (c # p) @ item @ s" by simp
      then show ?thesis by blast
    qed
  next
    assume "\<exists>p s. c # cs = p @ item @ s"
    then obtain p s where ps: "c # cs = p @ item @ s" by blast
    show "str_in item (c # cs)"
    proof (cases p)
      case Nil
      with ps have "prefix item (c # cs)" by (simp add: prefix_def)
      then show ?thesis by simp
    next
      case (Cons a p')
      with ps have "cs = p' @ item @ s" by simp
      with Cons.IH have "str_in item cs" by blast
      then show ?thesis by simp
    qed
  qed
qed

lemma endswith_iff: "endswith file suf \<longleftrightarrow> (\<exists>p. file = p @ suf)"
proof
  assume "endswith file suf"
  then have "drop (length file - length suf) file = suf" by (simp add: endswith_def)
  then have "file = take (length file - length suf) file @ suf"
    by (metis append_take_drop_id)
  then show "\<exists>p. file = p @ suf" ..
next
  assume "\<exists>p. file = p @ suf"
  then show "endswith file suf" by (auto simp: endswith_def)
qed

section \<open>The criteria filter: what the loops compute\<close>

lemma any_loop_True:
  "any_loop K True acc items =
     Inr (if items = [] then acc else remdups [k \<leftarrow> K. str_in (last items) k])"
  by (induction items arbitrary: acc) (simp_all add: py_set_def Let_def)

lemma all_loop_False:
  "all_loop m K False acc items = filter (\<lambda>x. \<forall>i \<in> set items. x \<in> set K \<and> m i x) acc"
  by (induction items arbitrary: acc) (auto simp: py_set_def intersection_def Let_def intro: filter_cong)

lemma all_loop_True:
  "items \<noteq> [] \<Longrightarrow>
   all_loop m K True acc items = filter (\<lambda>x. \<forall>i \<in> set items. m i x) (remdups K)"
proof (cases items)
  case Nil
  then show "items \<noteq> [] \<Longrightarrow> ?thesis" by simp
next
  case (Cons i rest)
  have "all_loop m K True acc (i # rest) =
        filter (\<lambda>x. \<forall>j \<in> set rest. x \<in> set K \<and> m j x) (filter (m i) (remdups K))"
    by (simp add: all_loop_False py_set_def remdups_filter)
  also have "\<dots> = filter (\<lambda>x. \<forall>j \<in> set (i # rest). m j x) (remdups K)"
    by (auto intro: filter_cong)
  finally show ?thesis using Cons by simp
qed

lemma all_loop_Nil: "all_loop m K True [] [] = []"
  by simp

lemma select_any_shape:
  assumes "select_any K c = Inr A"
  shows "\<exists>P. \<forall>K'. select_any K' c = Inr (filter P (remdups K'))"
proof (cases c)
  case Absent
  have "\<forall>K'. select_any K' c = Inr (filter (\<lambda>_. True) (remdups K'))"
    using Absent by (simp add: select_any_def py_set_def)
  then show ?thesis by blast
next
  case (Single s)
  have "\<forall>K'. select_any K' c = Inr (filter (str_in s) (remdups K'))"
    using Single by (simp add: select_any_def any_loop_True remdups_filter py_set_def)
  then show ?thesis by blast
next
  case (Many items)
  have "\<forall>K'. select_any K' c =
          Inr (filter (\<lambda>k. items \<noteq> [] \<and> str_in (last items) k) (remdups K'))"
    using Many by (simp add: select_any_def any_loop_True remdups_filter)
  then show ?thesis by blast
next
  case Other
  with assms show ?thesis by (simp add: select_any_def)
qed

lemma all_loop_shape:
  "all_loop m K True [] items = filter (\<lambda>k. items \<noteq> [] \<and> (\<forall>i \<in> set items. m i k)) (remdups K)"
  by (cases "items = []") (simp_all add: all_loop_True)

lemma select_all_shape:
  assumes "select_all K c = Inr A"
  shows "\<exists>P. \<forall>K'. select_all K' c = Inr (filter P (remdups K'))"
proof (cases c)
  case Absent
  have "\<forall>K'. select_all K' c = Inr (filter (\<lambda>_. True) (remdups K'))"
    using Absent by (simp add: select_all_def py_set_def)
  then show ?thesis by blast
next
  case (Single s)
  have "\<forall>K'. select_all K' c =
      Inr (filter (\<lambda>k. [s] \<noteq> [] \<and> (\<forall>i \<in> set [s]. str_in i k)) (remdups K'))"
    using Single unfolding select_all_def all_loop_shape by simp
  then show ?thesis by blast
next
  case (Many items)
  have "\<forall>K'. select_all K' c =
      Inr (filter (\<lambda>k. items \<noteq> [] \<and> (\<forall>i \<in> set items. str_in i k)) (remdups K'))"
    using Many unfolding select_all_def all_loop_shape by simp
  then show ?thesis by blast
next
  case Other
  with assms show ?thesis by (simp add: select_all_def)
qed

lemma select_suffixes_shape:
  assumes "select_suffixes K c = Inr A"
  shows "\<exists>P. \<forall>K'. select_suffixes K' c = Inr (filter P (remdups K'))"
proof (cases c)
  case Absent
  have "\<forall>K'. select_suffixes K' c = Inr (filter (\<lambda>_. True) (remdups K'))"
    using Absent by (simp add: select_suffixes_def py_set_def)
  then show ?thesis by blast
next
  case (Single s)
  have "\<forall>K'. select_suffixes K' c =
      Inr (filter (\<lambda>k. [s] \<noteq> [] \<and> (\<forall>i \<in> set [s]. endswith k i)) (remdups K'))"
    using Single unfolding select_suffixes_def all_loop_shape by simp
  then show ?thesis by blast
next
  case (Many items)
  have "\<forall>K'. select_suffixes K' c =
      Inr (filter (\<lambda>k. items \<noteq> [] \<and> (\<forall>i \<in> set items. endswith k i)) (remdups K'))"
    using Many unfolding select_suffixes_def all_loop_shape by simp
  then show ?thesis by blast
next
  case Other
  with assms show ?thesis by (simp add: select_suffixes_def)
qed

lemma intersection_filter:
  "intersection (filter P xs) (filter Q xs) = filter (\<lambda>x. P x \<and> Q x) xs"
  by (auto simp: intersection_def intro: filter_cong)

lemma select_files_shape:
  assumes "select_files K ca cy cs = Inr r"
  shows "\<exists>P. \<forall>K'. select_files K' ca cy cs =
           (if filter P (remdups K') = [] then Inl NoFilesMatched
            else Inr (filter P (remdups K')))"
proof -
  from assms obtain A B S where
    "select_any K cy = Inr A" "select_all K ca = Inr B" "select_suffixes K cs = Inr S"
    by (auto simp: select_files_def split: sum.splits)
  then obtain Pa Pb Ps where
    a: "\<forall>K'. select_any K' cy = Inr (filter Pa (remdups K'))" and
    b: "\<forall>K'. select_all K' ca = Inr (filter Pb (remdups K'))" and
    s: "\<forall>K'. select_suffixes K' cs = Inr (filter Ps (remdups K'))"
    using select_any_shape select_all_shape select_suffixes_shape by metis
  have "\<forall>K'. select_files K' ca cy cs =
           (if filter (\<lambda>x. (Pa x \<and> Pb x) \<and> Ps x) (remdups K') = [] then Inl NoFilesMatched
            else Inr (filter (\<lambda>x. (Pa x \<and> Pb x) \<and> Ps x) (remdups K')))"
    unfolding select_files_def by (simp add: a b s intersection_filter Let_def)
  then show ?thesis by blast
qed

text \<open>
  Claim C7: whenever the filter succeeds on a key list, applying it with the same
  criteria to its own output succeeds too and returns that output again.
\<close>

theorem filter_idempotent:
  assumes "select_files K ca cy cs = Inr r"
  shows "select_files r ca cy cs = Inr r"
proof -
  from select_files_shape [OF assms] obtain P where
    P: "\<And>K'. select_files K' ca cy cs =
           (if filter P (remdups K') = [] then Inl NoFilesMatched
            else Inr (filter P (remdups K')))" by blast
  from assms P [of K] have r: "r = filter P (remdups K)" "r \<noteq> []"
    by (auto split: if_splits)
  have "distinct r" using r by simp
  then have "filter P (remdups r) = r" using r by (simp add: distinct_remdups_id)
  with P [of r] r show ?thesis by simp
qed


theorem filter_idempotent_witness:
  "select_files [''icmr-01/a.csv'', ''icmr-02/b.csv'', ''other-01/c.csv'']
     (Many [''icmr'']) (Many [''01'', ''02'']) (Single ''csv'') = Inr [''icmr-02/b.csv'']
   \<and> select_files [''icmr-02/b.csv'']
     (Many [''icmr'']) (Many [''01'', ''02'']) (Single ''csv'') = Inr [''icmr-02/b.csv'']"
proof -
  have h: "select_files [''icmr-01/a.csv'', ''icmr-02/b.csv'', ''other-01/c.csv'']
     (Many [''icmr'']) (Many [''01'', ''02'']) (Single ''csv'') = Inr [''icmr-02/b.csv'']"
    by code_simp
  from filter_idempotent [OF h] h show ?thesis by simp
qed

text \<open>The contains-any group never raises, and only its last item counts.\<close>

lemma select_any_last_item:
  "select_any K (Many items) =
     Inr (if items = [] then [] else remdups [k \<leftarrow> K. str_in (last items) k])"
  by (simp add: select_any_def any_loop_True)

lemma select_any_never_ambiguous: "select_any K c \<noteq> Inl AmbiguousSelection"
  by (cases c) (simp_all add: select_any_def any_loop_True py_set_def)

text \<open>
  Claim C2: the contains-any result should be the union of the per-item subsets, with
  an error when two of them overlap. The loop never leaves its first-iteration branch,
  so the result is the subset of the last item alone and nothing is ever raised: on
  the keys of the specification's third scenario the selection is \<open>icmr-02/b.csv\<close>
  only, and the key \<open>x_ab.csv\<close>, which contains both items \<open>a\<close> and \<open>b\<close>, is
  selected without an error.
\<close>

theorem contains_any_keeps_last_item_only:
  "select_files [''icmr-01/a.csv'', ''icmr-02/b.csv'', ''other-01/c.csv'']
     (Many [''icmr'']) (Many [''01'', ''02'']) Absent = Inr [''icmr-02/b.csv'']
   \<and> select_files [''x_a.csv'', ''x_b.csv'', ''x_ab.csv'']
     Absent (Many [''a'', ''b'']) Absent = Inr [''x_b.csv'', ''x_ab.csv'']"
  by code_simp

text \<open>
  Claim C8: with two or more suffixes, the suffix criterion selects exactly the keys
  of the listing that end with every one of the suffixes.
\<close>

theorem suffix_criterion_is_conjunction:
  assumes "2 \<le> length sfxs"
  shows "\<exists>sel. select_suffixes files_found (Many sfxs) = Inr sel \<and> distinct sel \<and>
           set sel = {key \<in> set files_found. \<forall>s \<in> set sfxs. \<exists>p. key = p @ s}"
proof -
  from assms have ne: "sfxs \<noteq> []" by auto
  have "select_suffixes files_found (Many sfxs) =
          Inr (filter (\<lambda>k. \<forall>s \<in> set sfxs. endswith k s) (remdups files_found))"
    by (simp add: select_suffixes_def all_loop_True [OF ne])
  moreover have "set (filter (\<lambda>k. \<forall>s \<in> set sfxs. endswith k s) (remdups files_found)) =
          {key \<in> set files_found. \<forall>s \<in> set sfxs. \<exists>p. key = p @ s}"
    by (auto simp: endswith_iff)
  ultimately show ?thesis by simp
qed

theorem suffix_criterion_is_conjunction_witness:
  "(2::nat) \<le> length [''.gz'', ''tar.gz''] \<and>
   (\<exists>sel. select_suffixes [''a.tar.gz'', ''b.gz'', ''c.tar''] (Many [''.gz'', ''tar.gz'']) = Inr sel
      \<and> distinct sel \<and>
      set sel = {key \<in> set [''a.tar.gz'', ''b.gz'', ''c.tar''].
                   \<forall>s \<in> set [''.gz'', ''tar.gz'']. \<exists>p. key = p @ s})"
proof -
  have h: "(2::nat) \<le> length [''.gz'', ''tar.gz'']" by simp
  from suffix_criterion_is_conjunction [OF h, of "[''a.tar.gz'', ''b.gz'', ''c.tar'']"] h
  show ?thesis by blast
qed

section \<open>Prefix resolution: which folder is chosen\<close>

lemma py_split_nonempty: "py_split sep s \<noteq> []"
  by (induction s) (auto split: list.splits)











section \<open>The whole pass: errors before any effect, unused parameters\<close>

text \<open>
  Claim C10: \<open>check_for_expected_files\<close> and \<open>expected_file_list\<close> are never read:
  two calls that differ in them alone end with the same outcome and the same state
  (local tree, transfer calls, warnings, printed lines).
\<close>

theorem unused_parameters:
  "download_dataset_v2 env (a\<lparr>check_for_expected_files := c, expected_file_list := l\<rparr>) w =
   download_dataset_v2 env a w"
  by (simp add: download_dataset_v2_def Let_def
        cong: option.case_cong sum.case_cong prod.case_cong if_cong)

text \<open>
  Claim C4: when the three subsets that the criteria give on the listing have an empty
  intersection, the pass raises \<open>NoFilesMatched\<close> and leaves the state as it was: no
  download, no deletion, no directory is made.
\<close>

theorem no_files_matched:
  assumes "data_state_buckets env (data_state a) = Some Bucket"
    and "resolve_prefix (common_prefixes (client env) Bucket) (dsid a) = Inr dsid_name"
    and "files_found = collect_files (list_objects (client env) Bucket dsid_name)"
    and "select_any files_found (contains_any a) = Inr files_containing_any"
    and "select_all files_found (contains_all a) = Inr files_containing_all"
    and "select_suffixes files_found (suffixes_arg a) = Inr files_with_suffixes"
    and "set files_containing_any \<inter> set files_containing_all \<inter> set files_with_suffixes = {}"
  shows "download_dataset_v2 env a w = (Some NoFilesMatched, w)"
proof -
  have "set (intersection (intersection files_containing_any files_containing_all)
               files_with_suffixes) =
        set files_containing_any \<inter> set files_containing_all \<inter> set files_with_suffixes"
    by (auto simp: intersection_def)
  with assms(7) have
    "intersection (intersection files_containing_any files_containing_all) files_with_suffixes = []"
    by simp
  then have "select_files files_found (contains_all a) (contains_any a) (suffixes_arg a) =
          Inl NoFilesMatched"
    using assms(4-6) by (simp add: select_files_def)
  then show ?thesis
    using assms(1-3) by (simp add: download_dataset_v2_def)
qed

theorem no_files_matched_witness:
  "download_dataset_v2 ex_env (ex_args\<lparr>suffixes_arg := Single ''zip''\<rparr>) ex_world =
     (Some NoFilesMatched, ex_world)"
proof -
  let ?a = "ex_args\<lparr>suffixes_arg := Single ''zip''\<rparr>"
  have 1: "data_state_buckets ex_env (data_state ?a) = Some ''b''" by code_simp
  have 2: "resolve_prefix (common_prefixes (client ex_env) ''b'') (dsid ?a) = Inr ''D-x/''"
    by code_simp
  have 3: "[''D-x/a.csv'', ''D-x/b.txt''] = collect_files (list_objects (client ex_env) ''b'' ''D-x/'')"
    by code_simp
  have 4: "select_any [''D-x/a.csv'', ''D-x/b.txt''] (contains_any ?a) = Inr [''D-x/a.csv'', ''D-x/b.txt'']"
    by code_simp
  have 5: "select_all [''D-x/a.csv'', ''D-x/b.txt''] (contains_all ?a) = Inr [''D-x/a.csv'', ''D-x/b.txt'']"
    by code_simp
  have 6: "select_suffixes [''D-x/a.csv'', ''D-x/b.txt''] (suffixes_arg ?a) = Inr []"
    by code_simp
  have 7: "set [''D-x/a.csv'', ''D-x/b.txt''] \<inter> set [''D-x/a.csv'', ''D-x/b.txt''] \<inter> set [] = ({} :: string set)"
    by simp
  show ?thesis by (rule no_files_matched [OF 1 2 3 4 5 6 7])
qed

section \<open>One selected key\<close>


lemma download_file_warnings:
  "warnings (snd (download_file env B k f w)) = warnings w"
  by (simp add: download_file_def Let_def split: sum.splits)




lemma then_print_warnings: "warnings (snd (then_print v x r)) = warnings (snd r)"
  by (simp add: then_print_def print_def split: prod.splits option.splits)





lemma getmtime_exists: "path_exists tr p \<Longrightarrow> \<exists>L. getmtime tr p = Inr L"
  by (auto simp: path_exists_def getmtime_def)

lemma getctime_exists: "path_exists tr p \<Longrightarrow> \<exists>C. getctime tr p = Inr C"
  by (auto simp: path_exists_def getctime_def)


lemma warn_fields:
  "fs (warn x w) = fs w" "transfers (warn x w) = transfers w"
  "warnings (warn x w) = warnings w @ [x]" "printed (warn x w) = printed w"
  by (simp_all add: warn_def)

lemma print_fields:
  "fs (print x w) = fs w" "transfers (print x w) = transfers w"
  "warnings (print x w) = warnings w" "printed (print x w) = printed w @ [x]"
  by (simp_all add: print_def)

lemma warn_unreliable_ctime_fields:
  "fs (warn_unreliable_ctime env d u w) = fs w" "transfers (warn_unreliable_ctime env d u w) = transfers w"
  "warnings (warn_unreliable_ctime env d u w) =
     warnings w @ (if \<not> is_windows env \<and> u then [CtimeUnreliable d] else [])"
  by (simp_all add: warn_unreliable_ctime_def warn_fields)

lemma fs_update_same: "(w::world)\<lparr>fs := fs w\<rparr> = w"
  by simp

lemma sync_file_unfold:
  "sync_file env Bucket datadir' update' verbose' key w =
     (if update' \<and> path_exists (fs w) (path_join datadir' key) then
        (case getmtime (fs w) (path_join datadir' key) of
           Inl e \<Rightarrow> (Some e, warn_unreliable_ctime env datadir' update' w)
         | Inr L \<Rightarrow>
        (case getctime (fs w) (path_join datadir' key) of
           Inl e \<Rightarrow> (Some e, warn_unreliable_ctime env datadir' update' w)
         | Inr C \<Rightarrow>
        (case head_object (client env) Bucket key of
           None \<Rightarrow> (Some TransferError, warn_unreliable_ctime env datadir' update' w)
         | Some R \<Rightarrow>
             if L > C then
               then_print verbose' (LocallyModified (path_join datadir' key))
                 (download_file env Bucket key (path_join datadir' key)
                    (warn_unreliable_ctime env datadir' update' w))
             else if R > C then
               then_print verbose' (UpdatedOnS3 key)
                 (download_file env Bucket key (path_join datadir' key)
                    (warn_unreliable_ctime env datadir' update' w))
             else (None, if verbose' then print (UpToDate key) (warn_unreliable_ctime env datadir' update' w)
                         else warn_unreliable_ctime env datadir' update' w))))
      else
        (case (if \<not> path_exists (fs w) (dirname (path_join datadir' key))
               then makedirs (new_times env) (dirname (path_join datadir' key)) False (fs w)
               else Inr (fs w)) of
           Inl e \<Rightarrow> (Some e, warn_unreliable_ctime env datadir' update' w)
         | Inr tr \<Rightarrow>
             then_print verbose' (Downloaded key)
               (download_file env Bucket key (path_join datadir' key)
                  ((warn_unreliable_ctime env datadir' update' w)\<lparr>fs := tr\<rparr>))))"
  unfolding sync_file_def Let_def warn_unreliable_ctime_fields ..






section \<open>The creation-time warning\<close>

lemma sync_file_warnings:
  "warnings (snd (sync_file env B d u v k w)) =
     warnings w @ (if \<not> is_windows env \<and> u then [CtimeUnreliable d] else [])"
  unfolding sync_file_unfold
  by (simp add: then_print_warnings download_file_warnings warn_unreliable_ctime_fields
        print_fields split: sum.splits option.splits)

lemma download_all_warnings:
  "download_all env B d u v keys w = (None, w') \<Longrightarrow>
   warnings w' = warnings w @
     (if \<not> is_windows env \<and> u then replicate (length keys) (CtimeUnreliable d) else [])"
proof (induction keys arbitrary: w)
  case Nil
  then show ?case by simp
next
  case (Cons k keys)
  obtain r w1 where s: "sync_file env B d u v k w = (r, w1)" by (cases "sync_file env B d u v k w")
  with Cons.prems have r: "r = None" and rest: "download_all env B d u v keys w1 = (None, w')"
    by (auto split: option.splits)
  from sync_file_warnings [of env B d u v k w] s
  have "warnings w1 = warnings w @ (if \<not> is_windows env \<and> u then [CtimeUnreliable d] else [])"
    by simp
  with Cons.IH [OF rest] show ?case by (simp add: replicate_app_Cons_same)
qed

lemma prune_file_warnings:
  "filter is_ctime_warning (warnings (prune_file d n ff v p w)) =
   filter is_ctime_warning (warnings w)"
  by (simp add: prune_file_def Let_def warn_fields)

lemma fold_prune_file_warnings:
  "filter is_ctime_warning (warnings (fold (prune_file d n ff v) ps w)) =
   filter is_ctime_warning (warnings w)"
  by (induction ps arbitrary: w) (simp_all add: prune_file_warnings)

lemma prune_warnings:
  "filter is_ctime_warning (warnings (prune d n ff v w)) = filter is_ctime_warning (warnings w)"
  by (simp add: prune_def Let_def fold_prune_file_warnings print_fields)

lemma write_doc_warnings: "warnings (snd (write_doc env p w)) = warnings w"
  by (simp add: write_doc_def split: sum.splits)

lemma write_docs_warnings: "warnings (snd (write_docs env i d n w)) = warnings w"
  by (simp add: write_docs_def write_doc_warnings split: option.splits prod.splits)
     (metis write_doc_warnings snd_conv)

lemma select_files_distinct:
  assumes "select_files K ca cy cs = Inr r"
  shows "distinct r"
proof -
  from select_files_shape [OF assms] obtain P where
    "select_files K ca cy cs =
       (if filter P (remdups K) = [] then Inl NoFilesMatched else Inr (filter P (remdups K)))"
    by blast
  with assms have "r = filter P (remdups K)" by (auto split: if_splits)
  then show ?thesis by simp
qed


text \<open>
  Claim C6, as amended: the warning about creation times is issued inside the loop
  over the selected keys, once for every key. A pass that completes with \<open>update\<close>
  set on a platform other than Windows has called \<open>warnings.warn\<close> for it as many
  times as there are selected keys (the selection is a set, so each key counts once),
  and not at all otherwise. How many of these calls are shown is for the warnings
  filter of the Python process to decide.
\<close>

theorem ctime_warning_per_selected_key:
  assumes "download_dataset_v2 env a w = (None, w')"
    and "data_state_buckets env (data_state a) = Some Bucket"
    and "resolve_prefix (common_prefixes (client env) Bucket) (dsid a) = Inr dsid_name"
    and "select_files (collect_files (list_objects (client env) Bucket dsid_name))
           (contains_all a) (contains_any a) (suffixes_arg a) = Inr files_to_download"
  shows "distinct files_to_download \<and>
         length (filter is_ctime_warning (warnings w')) =
           length (filter is_ctime_warning (warnings w)) +
           (if update a \<and> \<not> is_windows env then length files_to_download else 0)"
proof -
  let ?ff = "collect_files (list_objects (client env) Bucket dsid_name)"
  obtain r w1 where dl: "download_all env Bucket (datadir a) (update a) (verbose a)
      files_to_download w = (r, w1)"
    by (cases "download_all env Bucket (datadir a) (update a) (verbose a) files_to_download w")
  let ?w2 = "if clean a then prune (datadir a) dsid_name ?ff (verbose a) w1 else w1"
  from assms dl have r: "r = None"
    by (auto simp: download_dataset_v2_def Let_def split: option.splits)
  from assms dl r have fin: "(if fetch_docs a then write_docs env (dsid a) (datadir a) dsid_name ?w2
                   else (None, ?w2)) = (None, w')"
    by (simp add: download_dataset_v2_def Let_def)
  have "warnings w' = warnings ?w2"
  proof (cases "fetch_docs a")
    case True
    with fin have "write_docs env (dsid a) (datadir a) dsid_name ?w2 = (None, w')" by simp
    with write_docs_warnings [of env "dsid a" "datadir a" dsid_name ?w2] show ?thesis by simp
  next
    case False
    with fin show ?thesis by simp
  qed
  then have "filter is_ctime_warning (warnings w') = filter is_ctime_warning (warnings w1)"
    by (simp add: prune_warnings)
  moreover from download_all_warnings [OF dl [unfolded r]]
  have "warnings w1 = warnings w @
     (if \<not> is_windows env \<and> update a
      then replicate (length files_to_download) (CtimeUnreliable (datadir a)) else [])" .
  ultimately show ?thesis using select_files_distinct [OF assms(4)] by auto
qed

theorem ctime_warning_per_selected_key_witness:
  "download_dataset_v2 ex_env (ex_args\<lparr>suffixes_arg := Absent\<rparr>) ex_world =
     (None, snd (download_dataset_v2 ex_env (ex_args\<lparr>suffixes_arg := Absent\<rparr>) ex_world))
   \<and> update (ex_args\<lparr>suffixes_arg := Absent\<rparr>) \<and> \<not> is_windows ex_env
   \<and> length (filter is_ctime_warning
        (warnings (snd (download_dataset_v2 ex_env (ex_args\<lparr>suffixes_arg := Absent\<rparr>) ex_world))))
      = length (filter is_ctime_warning (warnings ex_world)) + length [''D-x/a.csv'', ''D-x/b.txt'']"
proof -
  let ?a = "ex_args\<lparr>suffixes_arg := Absent\<rparr>"
  have 0: "fst (download_dataset_v2 ex_env ?a ex_world) = None" by code_simp
  then have 1: "download_dataset_v2 ex_env ?a ex_world =
     (None, snd (download_dataset_v2 ex_env ?a ex_world))"
    by (metis prod.collapse)
  have 2: "data_state_buckets ex_env (data_state ?a) = Some ''b''" by code_simp
  have 3: "resolve_prefix (common_prefixes (client ex_env) ''b'') (dsid ?a) = Inr ''D-x/''"
    by code_simp
  have 4: "select_files (collect_files (list_objects (client ex_env) ''b'' ''D-x/''))
           (contains_all ?a) (contains_any ?a) (suffixes_arg ?a) = Inr [''D-x/a.csv'', ''D-x/b.txt'']"
    by code_simp
  have 5: "update ?a" "\<not> is_windows ex_env" by code_simp+
  from ctime_warning_per_selected_key [OF 1 2 3 4] 5 1 show ?thesis by simp
qed

text \<open>
  The claim as stated, once per pass whatever the number of selected keys, fails on a
  pass that selects two keys: the warning is issued twice.
\<close>

theorem ctime_warning_twice_counterexample:
  "fst (download_dataset_v2 ex_env (ex_args\<lparr>suffixes_arg := Absent\<rparr>) ex_world) = None
   \<and> warnings (snd (download_dataset_v2 ex_env (ex_args\<lparr>suffixes_arg := Absent\<rparr>) ex_world)) =
       [CtimeUnreliable ''d'', CtimeUnreliable ''d'']"
  by code_simp

section \<open>Paths and their components\<close>


lemma py_split_append:
  "py_split sep (xs @ sep # ys) = py_split sep xs @ py_split sep ys"
proof (induction xs)
  case Nil
  show ?case by simp
next
  case (Cons x xs)
  obtain w ws where split: "py_split sep xs = w # ws"
    using py_split_nonempty [of sep xs] by (cases "py_split sep xs") auto
  with Cons show ?case by simp
qed

lemma py_split_single: "sep \<notin> set c \<Longrightarrow> py_split sep c = [c]"
  by (induction c) auto

lemma components_fold: "components path = fold norm_step (py_split CHR ''/'' path) []"
  by (simp add: components_def)



lemma components_snoc:
  assumes "name_ok c"
  shows "components (a @ CHR ''/'' # c) = components a @ [c]"
proof -
  from assms have "py_split CHR ''/'' c = [c]" by (simp add: py_split_single name_ok_def)
  then have "py_split CHR ''/'' (a @ CHR ''/'' # c) = py_split CHR ''/'' a @ [c]"
    using py_split_append [of "CHR ''/''" a c] by simp
  with assms show ?thesis by (simp add: components_fold norm_step_def name_ok_def)
qed

lemma components_trailing: "components (a @ [CHR ''/'']) = components a"
proof -
  have "py_split CHR ''/'' (a @ [CHR ''/'']) = py_split CHR ''/'' a @ [[]]"
    using py_split_append [of "CHR ''/''" a "[]"] by simp
  then show ?thesis by (simp add: components_fold norm_step_def)
qed

lemma components_name: "name_ok c \<Longrightarrow> components c = [c]"
  by (simp add: components_fold py_split_single norm_step_def name_ok_def)

lemma components_Nil: "components [] = []"
  by (simp add: components_fold norm_step_def)

lemma path_join_name:
  assumes "name_ok c"
  shows "path_join a c = (if a = [] \<or> last a = CHR ''/'' then a @ c else a @ ''/'' @ c)"
proof -
  from assms have "\<not> (case c of x # _ \<Rightarrow> x = CHR ''/'' | [] \<Rightarrow> False)"
    by (cases c) (auto simp: name_ok_def)
  then show ?thesis by (simp add: path_join_def)
qed

lemma components_join:
  assumes "name_ok c"
  shows "components (path_join a c) = components a @ [c]"
proof (cases "a = []")
  case True
  with assms show ?thesis by (simp add: path_join_name components_name components_Nil)
next
  case False
  show ?thesis
  proof (cases "last a = CHR ''/''")
    case True
    with False have a: "a = butlast a @ [CHR ''/'']" by (metis append_butlast_last_id)
    have "path_join a c = a @ c"
      using assms True by (simp add: path_join_name)
    with a have "path_join a c = butlast a @ CHR ''/'' # c"
      by (metis append.assoc append_Cons append_Nil)
    moreover have "components a = components (butlast a)"
      using components_trailing [of "butlast a"] a by simp
    ultimately show ?thesis using components_snoc [OF assms, of "butlast a"] by simp
  next
    case False
    with \<open>a \<noteq> []\<close> assms show ?thesis by (simp add: path_join_name components_snoc)
  qed
qed

lemma components_foldl_join:
  "\<forall>c \<in> set rest. name_ok c \<Longrightarrow>
   components (foldl path_join t rest) = components t @ rest"
  by (induction rest arbitrary: t) (simp_all add: components_join)

lemma prefix_path_join: "name_ok c \<Longrightarrow> prefix a (path_join a c)"
  by (simp add: path_join_name)

lemma prefix_foldl_join:
  "\<forall>c \<in> set rest. name_ok c \<Longrightarrow> prefix t (foldl path_join t rest)"
proof (induction rest arbitrary: t)
  case Nil
  show ?case by simp
next
  case (Cons c rest)
  then have "prefix (path_join t c) (foldl path_join (path_join t c) rest)" by simp
  moreover have "prefix t (path_join t c)" using Cons.prems by (simp add: prefix_path_join)
  ultimately show ?case by (metis foldl_Cons prefix_order.order_trans)
qed

section \<open>Walking and pruning\<close>

lemma walk_files_iff:
  "fp \<in> set (walk_files t tr) \<longleftrightarrow>
     t \<noteq> [] \<and> (\<exists>p e. (p, e) \<in> set tr \<and> is_file e \<and> prefix (components t) p \<and>
        p \<noteq> components t \<and> fp = foldl path_join t (drop (length (components t)) p))"
  by (auto simp: walk_files_def)

lemma wellformed_path: "wellformed tr \<Longrightarrow> (p, e) \<in> set tr \<Longrightarrow> c \<in> set p \<Longrightarrow> name_ok c"
  by (auto simp: wellformed_def)

text \<open>In a well-formed tree a walked file path resolves to the entry it was made from.\<close>

lemma walked_components:
  assumes "wellformed tr" "(p, e) \<in> set tr" "prefix (components t) p"
  shows "components (foldl path_join t (drop (length (components t)) p)) = p"
    and "prefix t (foldl path_join t (drop (length (components t)) p))"
proof -
  let ?rest = "drop (length (components t)) p"
  from assms(3) have p: "p = components t @ ?rest" by (auto simp: prefix_def)
  have ok: "\<forall>c \<in> set ?rest. name_ok c"
    using wellformed_path [OF assms(1,2)] by (auto dest: in_set_dropD)
  from components_foldl_join [OF ok, of t] p
  show "components (foldl path_join t ?rest) = p" by simp
  from prefix_foldl_join [OF ok] show "prefix t (foldl path_join t ?rest)" .
qed

lemma prune_file_fs:
  "fs (prune_file d n ff v fp w) =
     (if extraneous d n ff fp then remove (components fp) (fs w) else fs w)"
  by (simp add: prune_file_def extraneous_def Let_def warn_fields)

lemma fold_prune_file_set:
  "set (fs (fold (prune_file d n ff v) ps w)) =
     {(p, e) \<in> set (fs w). p \<notin> components ` {x \<in> set ps. extraneous d n ff x}}"
proof (induction ps arbitrary: w)
  case Nil
  show ?case by auto
next
  case (Cons x ps)
  have "set (fs (prune_file d n ff v x w)) =
     {(p, e) \<in> set (fs w). \<not> (extraneous d n ff x \<and> p = components x)}"
    by (auto simp: prune_file_fs remove_def)
  with Cons.IH [of "prune_file d n ff v x w"] show ?case by auto
qed

lemma prune_set:
  "set (fs (prune d n ff v w)) =
     {(p, e) \<in> set (fs w).
        p \<notin> components ` {x \<in> set (walk_files (path_join d n) (fs w)). extraneous d n ff x}}"
  by (simp add: prune_def Let_def fold_prune_file_set print_fields)


lemma wellformed_remove: "wellformed tr \<Longrightarrow> wellformed (remove q tr)"
  by (auto simp: wellformed_def remove_def)













lemma doc_names_ok: "name_ok ''metadata.yaml''" "name_ok ''datadictionary.yaml''"
  by (simp_all add: name_ok_def)


text \<open>
  With a data directory that is not empty and does not end with a separator, and a
  folder that does not begin with one, the walked paths begin with the data directory
  and a separator, and what follows is the path relative to it.
\<close>

lemma path_join_datadir:
  assumes "d \<noteq> []" "last d \<noteq> CHR ''/''" "\<not> prefix ''/'' n"
  shows "path_join d n = d @ CHR ''/'' # n"
proof -
  from assms(3) have "\<not> (case n of c # _ \<Rightarrow> c = CHR ''/'' | [] \<Rightarrow> False)"
    by (cases n) auto
  with assms(1,2) show ?thesis by (simp add: path_join_def)
qed

lemma doc_relative:
  assumes "d \<noteq> []" "last d \<noteq> CHR ''/''" "\<not> prefix ''/'' n" "name_ok m"
  shows "path_join (path_join d n) m = d @ CHR ''/'' # path_join n m"
  using assms by (simp add: path_join_datadir path_join_name)


text \<open>
  Pruning takes away only files below the dataset's local subdirectory, and only those
  whose walked path fails the test.
\<close>

lemma prune_deletes_only_below:
  assumes "wellformed (fs w)" "(p, e) \<in> set (fs w)"
    and "(p, e) \<notin> set (fs (prune d n ff v w))"
  shows "prefix (components (path_join d n)) p \<and> p \<noteq> components (path_join d n) \<and>
         extraneous d n ff
           (foldl path_join (path_join d n) (drop (length (components (path_join d n))) p))"
proof -
  let ?t = "path_join d n"
  from assms(2,3) obtain x where
    x: "x \<in> set (walk_files ?t (fs w))" "extraneous d n ff x" "p = components x"
    unfolding prune_set by auto
  from x(1) obtain p' e' where
    p': "(p', e') \<in> set (fs w)" "prefix (components ?t) p'" "p' \<noteq> components ?t"
      "x = foldl path_join ?t (drop (length (components ?t)) p')"
    unfolding walk_files_iff by blast
  from walked_components(1) [OF assms(1) p'(1,2)] p'(4) x(3) have "p = p'" by simp
  with p' x(2) show ?thesis by simp
qed

text \<open>
  With a data directory that is not empty and does not end with a separator, the two
  protected files directly under the subdirectory survive pruning.
\<close>

lemma prune_keeps_protected:
  assumes "wellformed (fs w)"
    and "d \<noteq> []" "last d \<noteq> CHR ''/''" "\<not> prefix ''/'' n"
    and "m = ''metadata.yaml'' \<or> m = ''datadictionary.yaml''"
    and "(components (path_join d n) @ [m], e) \<in> set (fs w)"
  shows "(components (path_join d n) @ [m], e) \<in> set (fs (prune d n ff v w))"
proof (rule ccontr)
  let ?t = "path_join d n"
  assume "(components ?t @ [m], e) \<notin> set (fs (prune d n ff v w))"
  from prune_deletes_only_below [OF assms(1,6) this]
  have "extraneous d n ff (path_join ?t m)" by simp
  moreover from assms(5) have ok: "name_ok m" using doc_names_ok by auto
  ultimately have "path_join n m \<notin> set (exception_fnames n)"
    by (simp add: extraneous_def doc_relative [OF assms(2-4) ok])
  with assms(5) show False by (auto simp: exception_fnames_def)
qed


section \<open>What pruning leaves\<close>




text \<open>
  Claim C9: the pruner should never delete \<open>metadata.yaml\<close> and
  \<open>datadictionary.yaml\<close> directly under the dataset's local subdirectory. The
  relative path is cut at \<open>len(datadir) + 1\<close>, which is one character too many when
  \<open>datadir\<close> already ends with a separator: with \<open>datadir = d/\<close> the file
  \<open>d/D-x/metadata.yaml\<close> gets the relative path \<open>-x/metadata.yaml\<close>, is taken for
  extraneous and is deleted, as is every other file of the subdirectory.
\<close>

theorem trailing_separator_deletes_protected:
  "map_of (fs ex_world) [''d'', ''D-x'', ''metadata.yaml''] = Some (File 7 7)
   \<and> components (path_join (path_join ''d/'' ''D-x/'') ''metadata.yaml'') =
       [''d'', ''D-x'', ''metadata.yaml'']
   \<and> fst (download_dataset_v2 ex_env (ex_args\<lparr>datadir := ''d/''\<rparr>) ex_world) = None
   \<and> map_of (fs (snd (download_dataset_v2 ex_env (ex_args\<lparr>datadir := ''d/''\<rparr>) ex_world)))
        [''d'', ''D-x'', ''metadata.yaml''] = None
   \<and> walk_files ''d/D-x/''
        (fs (snd (download_dataset_v2 ex_env (ex_args\<lparr>datadir := ''d/''\<rparr>) ex_world))) = []"
  by code_simp

end
